theory Spec2Isabelle
  imports Main "HOL-Library.Word"
begin

unbundle bit_operations_syntax

section \<open>Go strings and the library functions the converter calls\<close>

text \<open>
  A Go \<^verbatim>\<open>string\<close> is a sequence of bytes; it is modelled as \<^typ>\<open>string\<close>, a list of
  8-bit characters, so that \<open>@\<close> is Go's \<^verbatim>\<open>+\<close> and the length counts bytes.
\<close>

subsection \<open>strings.SplitN with a one-byte separator and n = 2\<close>

text \<open>
  \<^verbatim>\<open>strings.Index(s, sep)\<close> for a separator of one byte: the position of its first
  occurrence; \<open>None\<close> stands for Go's \<^verbatim>\<open>-1\<close>.
\<close>

fun Index :: "string \<Rightarrow> char \<Rightarrow> nat option" where
  "Index [] sep = None"
| "Index (c # s) sep = (if c = sep then Some 0 else map_option Suc (Index s sep))"

text \<open>
  \<^verbatim>\<open>strings.SplitN(s, sep, 2)\<close>, the only form the converter uses (with \<^verbatim>\<open>" "\<close> and
  \<^verbatim>\<open>":"\<close>): \<^verbatim>\<open>genSplit\<close> cuts at the first separator, \<^verbatim>\<open>a[0] = s[:m]\<close> and
  \<^verbatim>\<open>a[1] = s[m+len(sep):]\<close>, and returns the one-element slice \<^verbatim>\<open>[s]\<close> when there is
  no separator (also for the empty string).
\<close>

definition SplitN2 :: "string \<Rightarrow> char \<Rightarrow> string list" where
  "SplitN2 s sep =
     (case Index s sep of
        None \<Rightarrow> [s]
      | Some m \<Rightarrow> [take m s, drop (m + 1) s])"

subsection \<open>encoding/base64: StdEncoding\<close>

text \<open>
  The standard alphabet of RFC 4648 and the padding character of \<^verbatim>\<open>StdEncoding\<close>.
\<close>

definition encodeStd :: string where
  "encodeStd = ''ABCDEFGHIJKLMNOPQRSTUVWXYZabcdefghijklmnopqrstuvwxyz0123456789+/''"

definition padChar :: char where
  "padChar = CHR ''=''"

text \<open>
  \<^verbatim>\<open>NewEncoding\<close> fills the 256-entry table \<^verbatim>\<open>decodeMap\<close> with \<^verbatim>\<open>0xff\<close> and then
  stores \<^verbatim>\<open>uint8(i)\<close> at the byte \<^verbatim>\<open>encoder[i]\<close>, for \<^verbatim>\<open>i\<close> from 0.
\<close>

fun fill_decodeMap :: "string \<Rightarrow> 8 word \<Rightarrow> (char \<Rightarrow> 8 word) \<Rightarrow> (char \<Rightarrow> 8 word)" where
  "fill_decodeMap [] i m = m"
| "fill_decodeMap (e # es) i m = fill_decodeMap es (i + 1) (m(e := i))"

definition decodeMap :: "char \<Rightarrow> 8 word" where
  "decodeMap = fill_decodeMap encodeStd 0 (\<lambda>_. 0xFF)"

text \<open>
  \<^verbatim>\<open>Encoding.Encode\<close>: three source bytes become four alphabet characters through
  \<^verbatim>\<open>val := uint(src[si+0])<<16 | uint(src[si+1])<<8 | uint(src[si+2])\<close>; a remainder of
  two or one bytes is encoded the same way with the missing bytes left out of \<^verbatim>\<open>val\<close>,
  and padded with \<^verbatim>\<open>=\<close>. The \<^verbatim>\<open>uint\<close> value has at most 24 bits, so it never wraps
  and is modelled as a natural number with the bit operations of the source.
\<close>

fun Encode :: "string \<Rightarrow> string" where
  "Encode (a # b # c # src) =
     (let val = push_bit 16 (of_char a) OR push_bit 8 (of_char b) OR of_char c :: nat
      in encodeStd ! (drop_bit 18 val AND 0x3F) #
         encodeStd ! (drop_bit 12 val AND 0x3F) #
         encodeStd ! (drop_bit 6 val AND 0x3F) #
         encodeStd ! (val AND 0x3F) # Encode src)"
| "Encode [a, b] =
     (let val = push_bit 16 (of_char a) OR push_bit 8 (of_char b) :: nat
      in [encodeStd ! (drop_bit 18 val AND 0x3F),
          encodeStd ! (drop_bit 12 val AND 0x3F),
          encodeStd ! (drop_bit 6 val AND 0x3F),
          padChar])"
| "Encode [a] =
     (let val = push_bit 16 (of_char a) :: nat
      in [encodeStd ! (drop_bit 18 val AND 0x3F),
          encodeStd ! (drop_bit 12 val AND 0x3F),
          padChar, padChar])"
| "Encode [] = []"

definition EncodeToString :: "string \<Rightarrow> string" where
  "EncodeToString src = Encode src"

text \<open>The 24-bit group that \<^verbatim>\<open>Encode\<close> builds from three bytes, named for the proofs.\<close>

definition val3 :: "char \<Rightarrow> char \<Rightarrow> char \<Rightarrow> nat" where
  "val3 a b c = push_bit 16 (of_char a) OR push_bit 8 (of_char b) OR of_char c"

text \<open>
  The decoder skips carriage returns and line feeds wherever they stand.
\<close>

definition is_newline :: "char \<Rightarrow> bool" where
  "is_newline c \<longleftrightarrow> c = CHR 0x0A \<or> c = CHR 0x0D"

fun skip_newlines :: "string \<Rightarrow> string" where
  "skip_newlines [] = []"
| "skip_newlines (c # cs) = (if is_newline c then skip_newlines cs else c # cs)"

text \<open>
  The end of \<^verbatim>\<open>decodeQuantum\<close>: the sextets read so far (\<^verbatim>\<open>dlen\<close> of them, the rest
  of the zero-initialised \<^verbatim>\<open>dbuf\<close> being 0) are joined into
  \<^verbatim>\<open>val := uint(dbuf[0])<<18 | uint(dbuf[1])<<12 | uint(dbuf[2])<<6 | uint(dbuf[3])\<close>,
  and the first \<^verbatim>\<open>dlen - 1\<close> of the bytes \<^verbatim>\<open>byte(val>>16)\<close>, \<^verbatim>\<open>byte(val>>8)\<close>,
  \<^verbatim>\<open>byte(val)\<close> are written. \<^verbatim>\<open>StdEncoding\<close> is not strict: the unused low bits of
  a padded quantum are not checked.
\<close>

definition quantum_bytes :: "8 word list \<Rightarrow> string" where
  "quantum_bytes dbuf =
     (let d = dbuf @ replicate (4 - length dbuf) 0;
          val = push_bit 18 (unat (d ! 0)) OR push_bit 12 (unat (d ! 1)) OR
                push_bit 6 (unat (d ! 2)) OR unat (d ! 3)
      in take (length dbuf - 1)
           [char_of (drop_bit 16 val), char_of (drop_bit 8 val), char_of val])"

text \<open>
  \<^verbatim>\<open>Encoding.Decode\<close> with \<^verbatim>\<open>decodeQuantum\<close>, as one recursion over the input; \<open>dbuf\<close>
  holds the sextets of the quantum being read (\<^verbatim>\<open>j\<close> is its length). \<open>None\<close> is a
  \<^verbatim>\<open>CorruptInputError\<close>: a byte that is neither in the alphabet, nor a newline, nor
  padding; padding after fewer than two sextets; a missing second \<^verbatim>\<open>=\<close>; anything but
  newlines after the padding; or the end of the input inside a quantum. The offset the
  error carries and the bytes decoded before it are left out, since the converter
  looks only at whether the error is nil.
\<close>

fun Decode :: "8 word list \<Rightarrow> string \<Rightarrow> string option" where
  "Decode dbuf [] = (if dbuf = [] then Some [] else None)"
| "Decode dbuf (c # src) =
     (if decodeMap c \<noteq> 0xFF then
        (if length dbuf = 3
         then map_option ((@) (quantum_bytes (dbuf @ [decodeMap c]))) (Decode [] src)
         else Decode (dbuf @ [decodeMap c]) src)
      else if is_newline c then Decode dbuf src
      else if c \<noteq> padChar then None
      else if length dbuf < 2 then None
      else if length dbuf = 2 then
        (case skip_newlines src of
           [] \<Rightarrow> None
         | p # src' \<Rightarrow>
             if p \<noteq> padChar then None
             else if skip_newlines src' \<noteq> [] then None
             else Some (quantum_bytes dbuf))
      else if skip_newlines src \<noteq> [] then None
      else Some (quantum_bytes dbuf))"

definition DecodeString :: "string \<Rightarrow> string option" where
  "DecodeString s = Decode [] s"

subsection \<open>net/http: headers, requests, response writers\<close>

text \<open>
  \<^verbatim>\<open>http.Header\<close> is a \<^verbatim>\<open>map[string][]string\<close> under canonical keys. \<^verbatim>\<open>Get\<close> returns
  the first value of a key and the empty string when there is none; \<^verbatim>\<open>Set\<close> replaces
  all values of a key by one. The only key used, \<^verbatim>\<open>"Authorization"\<close>, is already in
  canonical form.
\<close>

type_synonym Header = "string \<rightharpoonup> string list"

definition Get :: "Header \<Rightarrow> string \<Rightarrow> string" where
  "Get h key = (case h key of None \<Rightarrow> [] | Some [] \<Rightarrow> [] | Some (v # vs) \<Rightarrow> v)"

definition Set :: "Header \<Rightarrow> string \<Rightarrow> string \<Rightarrow> Header" where
  "Set h key v = h(key \<mapsto> [v])"

record Request =
  Header :: Header

record ResponseWriter =
  rw_Header :: Header

section \<open>The converter\<close>

type_synonym TokenSource = string
type_synonym AuthType = string

definition password :: TokenSource where "password = ''password''"
definition username :: TokenSource where "username = ''username''"
definition unchanged :: TokenSource where "unchanged = ''full''"
definition decoded :: TokenSource where "decoded = ''decoded''"
definition combined :: TokenSource where "combined = ''combined''"

definition HeaderName :: string where "HeaderName = ''Authorization''"

definition basic :: AuthType where "basic = ''Basic''"
definition bearer :: AuthType where "bearer = ''Bearer''"
definition digest :: AuthType where "digest = ''Digest''"

record Config =
  tokenSource :: TokenSource
  encodeToken :: bool
  sourceType :: AuthType
  targetType :: AuthType

text \<open>
  The next handler of the chain belongs to the hosting proxy; the converter only
  stores it and calls it, so it is a value of an arbitrary type \<open>'h\<close>.
\<close>

record 'h AuthConverter =
  next_handler :: 'h
  config :: Config

text \<open>An error value made by \<^verbatim>\<open>errors.New\<close> carries its message.\<close>

datatype error = errors_New string

text \<open>The failure kinds of the specification, by the message the code gives each.\<close>

definition MalformedHeader :: error where
  "MalformedHeader = errors_New ''invalid authorization header contents''"
definition SchemeMismatch :: error where
  "SchemeMismatch = errors_New ''invalid authorization type''"
definition DecodeError :: error where
  "DecodeError = errors_New ''Base64 decoding failed''"
definition UnsupportedSourceForSplit :: error where
  "UnsupportedSourceForSplit = errors_New ''partial ''"
definition MalformedCredential :: error where
  "MalformedCredential = errors_New ''invalid value in authorization header''"
definition InvalidTokenSource :: error where
  "InvalidTokenSource = errors_New ''invalid token source''"

text \<open>\<^verbatim>\<open>getToken\<close>: gets the token from the passed header.\<close>

definition getToken :: "'h AuthConverter \<Rightarrow> string \<Rightarrow> error + string" where
  "getToken e header =
     (let splitHeader = SplitN2 header (CHR '' '') in
      if length splitHeader \<noteq> 2 then
        Inl (errors_New ''invalid authorization header contents'')
      else if splitHeader ! 0 \<noteq> sourceType (config e) then
        Inl (errors_New ''invalid authorization type'')
      else
        let sourceTokenBase64 = splitHeader ! 1 in
        if tokenSource (config e) = unchanged then Inr sourceTokenBase64
        else
          (case DecodeString sourceTokenBase64 of
             None \<Rightarrow> Inl (errors_New ''Base64 decoding failed'')
           | Some sourceTokenDecoded \<Rightarrow>
               if tokenSource (config e) = decoded then Inr sourceTokenDecoded
               else if sourceType (config e) \<noteq> basic then Inl (errors_New ''partial '')
               else
                 let basicTokenParts = SplitN2 sourceTokenDecoded (CHR '':'') in
                 if length basicTokenParts \<noteq> 2 then
                   Inl (errors_New ''invalid value in authorization header'')
                 else if tokenSource (config e) = username then Inr (basicTokenParts ! 0)
                 else if tokenSource (config e) = password then Inr (basicTokenParts ! 1)
                 else if tokenSource (config e) = combined then
                   Inr (basicTokenParts ! 0 @ basicTokenParts ! 1)
                 else Inl (errors_New ''invalid token source'')))"

text \<open>
  \<^verbatim>\<open>ServeHTTP\<close>, the entry point from the proxy. The request is mutated in place and
  then handed to the next handler together with the response writer; what the next
  handler does is not the converter's. The model returns the calls made to other
  handlers, in order, each with the response writer and the request as they are when
  the call is made.
\<close>

datatype 'h call = Next_ServeHTTP 'h ResponseWriter Request

definition ServeHTTP :: "'h AuthConverter \<Rightarrow> ResponseWriter \<Rightarrow> Request \<Rightarrow> 'h call list" where
  "ServeHTTP e rw req =
     (let req' =
        (case getToken e (Get (Header req) HeaderName) of
           Inr token \<Rightarrow>
             let token' = (if encodeToken (config e) then EncodeToString token else token);
                 authorization = targetType (config e) @ '' '' @ token'
             in req\<lparr>Header := Set (Header req) HeaderName authorization\<rparr>
         | Inl err \<Rightarrow> req)
      in [Next_ServeHTTP (next_handler e) rw req'])"

definition CreateConfig :: Config where
  "CreateConfig =
     \<lparr>tokenSource = combined, encodeToken = False, sourceType = basic, targetType = bearer\<rparr>"

text \<open>
  \<^verbatim>\<open>New\<close>: the map \<^verbatim>\<open>validConfig\<close> holds \<^verbatim>\<open>true\<close> for the five token sources, and a
  lookup of a missing key gives Go's zero value \<^verbatim>\<open>false\<close>. The context and the name are
  not used.
\<close>

definition validConfig :: "TokenSource \<rightharpoonup> bool" where
  "validConfig =
     [username \<mapsto> True, password \<mapsto> True, unchanged \<mapsto> True, combined \<mapsto> True,
      decoded \<mapsto> True]"

definition New :: "'c \<Rightarrow> 'h \<Rightarrow> Config \<Rightarrow> string \<Rightarrow> error + 'h AuthConverter" where
  "New ctx nxt cfg name =
     (if \<not> (case validConfig (tokenSource cfg) of None \<Rightarrow> False | Some b \<Rightarrow> b)
      then Inl (errors_New ''invalid token source'')
      else Inr \<lparr>next_handler = nxt, config = cfg\<rparr>)"

section \<open>Facts about the library model\<close>

subsection \<open>Splitting at the first separator\<close>

lemma Index_None_iff: "Index s sep = None \<longleftrightarrow> sep \<notin> set s"
  by (induction s) auto

lemma Index_first: "sep \<notin> set a \<Longrightarrow> Index (a @ sep # b) sep = Some (length a)"
  by (induction a) auto

lemma SplitN2_no_sep: "sep \<notin> set s \<Longrightarrow> SplitN2 s sep = [s]"
  by (simp add: SplitN2_def Index_None_iff [THEN iffD2])

lemma SplitN2_first: "sep \<notin> set a \<Longrightarrow> SplitN2 (a @ sep # b) sep = [a, b]"
  by (simp add: SplitN2_def Index_first)

lemma length_SplitN2: "length (SplitN2 s sep) = (if sep \<in> set s then 2 else 1)"
  by (cases "Index s sep") (simp_all add: SplitN2_def Index_None_iff [symmetric])

subsection \<open>The decoding table inverts the alphabet\<close>

lemma fill_decodeMap_notin: "c \<notin> set es \<Longrightarrow> fill_decodeMap es i m c = m c"
  by (induction es arbitrary: i m) auto

lemma fill_decodeMap_nth:
  "distinct es \<Longrightarrow> k < length es \<Longrightarrow> fill_decodeMap es i m (es ! k) = i + of_nat k"
proof (induction es arbitrary: i m k)
  case Nil
  then show ?case by simp
next
  case (Cons e es)
  show ?case
  proof (cases k)
    case 0
    with Cons.prems show ?thesis by (simp add: fill_decodeMap_notin)
  next
    case (Suc j)
    with Cons.prems have "fill_decodeMap es (i + 1) (m(e := i)) (es ! j) = i + 1 + of_nat j"
      by (intro Cons.IH) simp_all
    with Suc show ?thesis by (simp add: ac_simps)
  qed
qed

lemma distinct_encodeStd: "distinct encodeStd"
  by (simp add: encodeStd_def)

lemma length_encodeStd: "length encodeStd = 64"
  by (simp add: encodeStd_def)

lemma decodeMap_encodeStd: "k < 64 \<Longrightarrow> decodeMap (encodeStd ! k) = of_nat k"
  using fill_decodeMap_nth [OF distinct_encodeStd, of k 0]
  by (simp add: decodeMap_def length_encodeStd)

lemma decodeMap_valid: "k < 64 \<Longrightarrow> decodeMap (encodeStd ! k) \<noteq> 0xFF"
proof
  assume k: "k < 64" and "decodeMap (encodeStd ! k) = 0xFF"
  then have "unat (of_nat k :: 8 word) = unat (0xFF :: 8 word)"
    by (simp add: decodeMap_encodeStd)
  with k show False by (simp add: unat_of_nat)
qed

lemma unat_decodeMap: "k < 64 \<Longrightarrow> unat (decodeMap (encodeStd ! k)) = k"
  by (simp add: decodeMap_encodeStd unat_of_nat)

lemma decodeMap_padChar: "decodeMap padChar = 0xFF"
  by (simp add: decodeMap_def encodeStd_def padChar_def)

lemma padChar_not_newline: "\<not> is_newline padChar"
  by (simp add: is_newline_def padChar_def)

subsection \<open>Sextets and bytes\<close>

lemma and_63: "(n::nat) AND 0x3F = take_bit 6 n"
  by (simp add: take_bit_eq_mask mask_eq_exp_minus_1)

lemma sextet_less: "(n::nat) AND 0x3F < 64"
  by (simp add: and_63 take_bit_eq_mod)

lemma sextet_decode: "unat (decodeMap (encodeStd ! (n AND 0x3F))) = take_bit 6 n"
  using unat_decodeMap [OF sextet_less, of n] by (simp add: and_63)

lemma sextet_valid: "decodeMap (encodeStd ! (n AND 0x3F)) \<noteq> 0xFF"
  by (rule decodeMap_valid) (rule sextet_less)

lemma bit_of_char_nat: "bit (of_char c :: nat) n \<Longrightarrow> n < 8"
proof -
  assume b: "bit (of_char c :: nat) n"
  have "(of_char c :: nat) < 2 ^ 8" by simp
  with b show ?thesis
    by (metis bit_take_bit_iff take_bit_nat_eq_self)
qed

lemma regroup24:
  "push_bit 18 (take_bit 6 (drop_bit 18 v)) OR push_bit 12 (take_bit 6 (drop_bit 12 v)) OR
   push_bit 6 (take_bit 6 (drop_bit 6 v)) OR take_bit 6 v = take_bit 24 (v::nat)"
proof (rule bit_eqI)
  fix n :: nat
  consider "n < 6" | "6 \<le> n" "n < 12" | "12 \<le> n" "n < 18" | "18 \<le> n" "n < 24" | "24 \<le> n"
    by linarith
  then show "bit (push_bit 18 (take_bit 6 (drop_bit 18 v)) OR
      push_bit 12 (take_bit 6 (drop_bit 12 v)) OR
      push_bit 6 (take_bit 6 (drop_bit 6 v)) OR take_bit 6 v) n = bit (take_bit 24 v) n"
    by cases (auto simp add: bit_simps)
qed

text \<open>The group has 24 bits: the 64-bit \<^verbatim>\<open>uint\<close> of the source does not wrap.\<close>

lemma val3_less: "take_bit 24 (val3 a b c) = val3 a b c"
  unfolding val3_def
  by (rule bit_eqI) (auto simp add: bit_simps dest: bit_of_char_nat)

lemma val3_byte0: "take_bit 8 (drop_bit 16 (val3 a b c)) = of_char a"
  unfolding val3_def
  by (rule bit_eqI) (auto simp add: bit_simps dest: bit_of_char_nat)

lemma val3_byte1: "take_bit 8 (drop_bit 8 (val3 a b c)) = of_char b"
  unfolding val3_def
  by (rule bit_eqI) (auto simp add: bit_simps dest: bit_of_char_nat)

lemma val3_byte2: "take_bit 8 (val3 a b c) = of_char c"
  unfolding val3_def
  by (rule bit_eqI) (auto simp add: bit_simps dest: bit_of_char_nat)

lemma val3_low6: "take_bit 6 (val3 a b (CHR 0x00)) = 0"
  unfolding val3_def
  by (rule bit_eqI) (auto simp add: bit_simps dest: bit_of_char_nat)

lemma val3_mid6: "take_bit 6 (drop_bit 6 (val3 a (CHR 0x00) (CHR 0x00))) = 0"
  unfolding val3_def
  by (rule bit_eqI) (auto simp add: bit_simps dest: bit_of_char_nat)

lemma quantum_bytes_4:
  "quantum_bytes [d0, d1, d2, d3] =
     (let val = push_bit 18 (unat d0) OR push_bit 12 (unat d1) OR push_bit 6 (unat d2) OR unat d3
      in [char_of (drop_bit 16 val), char_of (drop_bit 8 val), char_of val])"
  by (simp add: quantum_bytes_def)

lemma quantum_bytes_3:
  "quantum_bytes [d0, d1, d2] =
     (let val = push_bit 18 (unat d0) OR push_bit 12 (unat d1) OR push_bit 6 (unat d2)
      in [char_of (drop_bit 16 val), char_of (drop_bit 8 val)])"
  by (simp add: quantum_bytes_def)

lemma quantum_bytes_2:
  "quantum_bytes [d0, d1] =
     (let val = push_bit 18 (unat d0) OR push_bit 12 (unat d1)
      in [char_of (drop_bit 16 val)])"
  by (simp add: quantum_bytes_def)

lemma quantum4:
  "quantum_bytes [decodeMap (encodeStd ! (drop_bit 18 (val3 a b c) AND 0x3F)),
                  decodeMap (encodeStd ! (drop_bit 12 (val3 a b c) AND 0x3F)),
                  decodeMap (encodeStd ! (drop_bit 6 (val3 a b c) AND 0x3F)),
                  decodeMap (encodeStd ! (val3 a b c AND 0x3F))] = [a, b, c]"
  unfolding quantum_bytes_4 sextet_decode regroup24 val3_less Let_def
  by (simp add: char_of_eq_iff val3_byte0 val3_byte1 val3_byte2)

lemma quantum3:
  "quantum_bytes [decodeMap (encodeStd ! (drop_bit 18 (val3 a b (CHR 0x00)) AND 0x3F)),
                  decodeMap (encodeStd ! (drop_bit 12 (val3 a b (CHR 0x00)) AND 0x3F)),
                  decodeMap (encodeStd ! (drop_bit 6 (val3 a b (CHR 0x00)) AND 0x3F))] = [a, b]"
proof -
  let ?v = "val3 a b (CHR 0x00)"
  have r: "push_bit 18 (take_bit 6 (drop_bit 18 ?v)) OR
        push_bit 12 (take_bit 6 (drop_bit 12 ?v)) OR
        push_bit 6 (take_bit 6 (drop_bit 6 ?v)) = ?v"
    using regroup24 [of ?v] by (simp add: val3_low6 val3_less)
  show ?thesis
    unfolding quantum_bytes_3 sextet_decode r Let_def
    by (simp add: char_of_eq_iff val3_byte0 val3_byte1)
qed

lemma quantum2:
  "quantum_bytes [decodeMap (encodeStd ! (drop_bit 18 (val3 a (CHR 0x00) (CHR 0x00)) AND 0x3F)),
                  decodeMap (encodeStd ! (drop_bit 12 (val3 a (CHR 0x00) (CHR 0x00)) AND 0x3F))] = [a]"
proof -
  let ?v = "val3 a (CHR 0x00) (CHR 0x00)"
  have r: "push_bit 18 (take_bit 6 (drop_bit 18 ?v)) OR
        push_bit 12 (take_bit 6 (drop_bit 12 ?v)) = ?v"
    using regroup24 [of ?v] by (simp add: val3_low6 val3_mid6 val3_less)
  show ?thesis
    unfolding quantum_bytes_2 sextet_decode r Let_def
    by (simp add: char_of_eq_iff val3_byte0)
qed

subsection \<open>Decoding what was encoded\<close>

lemma Decode_Encode: "Decode [] (Encode src) = Some src"
proof (induction src rule: Encode.induct)
  case (1 a b c src)
  have e: "push_bit 16 (of_char a) OR push_bit 8 (of_char b) OR of_char c = val3 a b c"
    by (simp add: val3_def)
  show ?case
    using 1 by (simp add: Let_def e sextet_valid quantum4 del: One_nat_def)
next
  case (2 a b)
  have e: "push_bit 16 (of_char a) OR push_bit 8 (of_char b) = val3 a b (CHR 0x00)"
    by (simp add: val3_def)
  show ?case
    by (simp add: Let_def e sextet_valid quantum3 decodeMap_padChar padChar_not_newline)
next
  case (3 a)
  have e: "push_bit 16 (of_char a) = val3 a (CHR 0x00) (CHR 0x00)"
    by (simp add: val3_def)
  show ?case
    by (simp add: Let_def e sextet_valid quantum2 decodeMap_padChar padChar_not_newline)
next
  case 4
  show ?case by simp
qed

lemma DecodeString_EncodeToString: "DecodeString (EncodeToString x) = Some x"
  by (simp add: DecodeString_def EncodeToString_def Decode_Encode)

lemma EncodeToString_Nil: "EncodeToString [] = []"
  by (simp add: EncodeToString_def)

lemma DecodeString_Nil: "DecodeString [] = Some []"
  by (simp add: DecodeString_def)

subsection \<open>What the decoder rejects\<close>

text \<open>
  A byte that is neither in the alphabet, nor a newline, nor the padding character makes
  the decoder fail, wherever it stands.
\<close>

lemma skip_newlines_keeps: "c \<in> set s \<Longrightarrow> \<not> is_newline c \<Longrightarrow> c \<in> set (skip_newlines s)"
  by (induction s) auto

lemma Decode_other_byte:
  assumes "c \<in> set s" and "decodeMap c = 0xFF" and "\<not> is_newline c" and "c \<noteq> padChar"
  shows "Decode dbuf s = None"
  using assms(1)
proof (induction s arbitrary: dbuf)
  case Nil
  then show ?case by simp
next
  case (Cons x s)
  show ?case
  proof (cases "x = c")
    case True
    with assms show ?thesis by simp
  next
    case False
    with Cons.prems have cs: "c \<in> set s" by simp
    then have ih: "Decode d s = None" for d by (rule Cons.IH)
    from cs assms(3) have k: "c \<in> set (skip_newlines s)" by (simp add: skip_newlines_keeps)
    have pad2: "(case skip_newlines s of
           [] \<Rightarrow> None
         | p # src' \<Rightarrow>
             if p \<noteq> padChar then None
             else if skip_newlines src' \<noteq> [] then None
             else Some (quantum_bytes dbuf)) = None"
    proof (cases "skip_newlines s")
      case Nil
      then show ?thesis by simp
    next
      case (Cons p src')
      show ?thesis
      proof (cases "p = padChar")
        case True
        with k Cons assms(4) have "c \<in> set src'" by auto
        with assms(3) have "c \<in> set (skip_newlines src')" by (simp add: skip_newlines_keeps)
        then have "skip_newlines src' \<noteq> []" by auto
        with Cons show ?thesis by simp
      next
        case False
        with Cons show ?thesis by simp
      qed
    qed
    from k have ne: "skip_newlines s \<noteq> []" by auto
    show ?thesis
      by (simp only: Decode.simps ih pad2 ne option.map_disc_iff if_True if_False simp_thms not_False_eq_True split: if_split)
  qed
qed

lemma DecodeString_other_byte:
  "c \<in> set s \<Longrightarrow> c \<notin> set encodeStd \<Longrightarrow> \<not> is_newline c \<Longrightarrow> c \<noteq> padChar \<Longrightarrow>
   DecodeString s = None"
  unfolding DecodeString_def
  by (rule Decode_other_byte) (simp_all add: decodeMap_def fill_decodeMap_notin)

subsection \<open>The length of an encoding\<close>

text \<open>A non-empty string is shorter than its encoding.\<close>

lemma length_Encode_step: "length (Encode (a # b # c # src)) = 4 + length (Encode src)"
  by (simp only: Encode.simps Let_def list.size length_Cons)

lemma length_Encode_pos: "src \<noteq> [] \<Longrightarrow> length src < length (Encode src)"
proof (induction src rule: Encode.induct)
  case (1 a b c src)
  show ?case
  proof (cases "src = []")
    case True
    then show ?thesis by (simp only: length_Encode_step) simp
  next
    case False
    with 1 have "length src < length (Encode src)" by simp
    then show ?thesis by (simp only: length_Encode_step) simp
  qed
next
  case (2 a b)
  show ?case by (simp only: Encode.simps Let_def list.size length_Cons)
next
  case (3 a)
  show ?case by (simp only: Encode.simps Let_def list.size length_Cons)
next
  case 4
  then show ?case by simp
qed

lemma EncodeToString_neq: "p \<noteq> [] \<Longrightarrow> EncodeToString p \<noteq> p"
  using length_Encode_pos [of p] by (auto simp add: EncodeToString_def)

text \<open>The definitions to unfold when a concrete input is evaluated.\<close>

lemmas base64_eval =
  EncodeToString_def DecodeString_def decodeMap_def encodeStd_def padChar_def
  is_newline_def quantum_bytes_def char_of_eq_iff

lemmas converter_eval =
  getToken_def SplitN2_def Get_def Set_def HeaderName_def
  password_def username_def unchanged_def decoded_def combined_def
  basic_def bearer_def digest_def

section \<open>The extractor on a header with a scheme and a payload\<close>

text \<open>
  When the part of the header before its first space is \<open>scheme\<close>, the extractor
  goes through its checks in this order.
\<close>

lemma getToken_split:
  assumes "CHR '' '' \<notin> set scheme"
  shows "getToken e (scheme @ CHR '' '' # payload) =
     (if scheme \<noteq> sourceType (config e) then Inl SchemeMismatch
      else if tokenSource (config e) = unchanged then Inr payload
      else
        (case DecodeString payload of
           None \<Rightarrow> Inl DecodeError
         | Some d \<Rightarrow>
             if tokenSource (config e) = decoded then Inr d
             else if sourceType (config e) \<noteq> basic then Inl UnsupportedSourceForSplit
             else if CHR '':'' \<notin> set d then Inl MalformedCredential
             else
               if tokenSource (config e) = username then Inr (SplitN2 d (CHR '':'') ! 0)
               else if tokenSource (config e) = password then Inr (SplitN2 d (CHR '':'') ! 1)
               else if tokenSource (config e) = combined
                 then Inr (SplitN2 d (CHR '':'') ! 0 @ SplitN2 d (CHR '':'') ! 1)
               else Inl InvalidTokenSource))"
  using assms
  by (simp add: getToken_def SplitN2_first length_SplitN2 Let_def SchemeMismatch_def
      DecodeError_def UnsupportedSourceForSplit_def MalformedCredential_def InvalidTokenSource_def
      split: option.split)


section \<open>Properties of the converter\<close>

text \<open>
  C1: for a header \<^verbatim>\<open>"Basic " + base64(u + ":" + p)\<close> where \<open>u\<close> has no colon, the
  extraction with the token source \<^verbatim>\<open>combined\<close> and the source type \<^verbatim>\<open>"Basic"\<close>
  succeeds and returns \<open>u\<close> directly followed by \<open>p\<close>, with no separator.
\<close>

theorem combined_concatenates:
  assumes "CHR '':'' \<notin> set u"
    and "tokenSource (config e) = combined"
    and "sourceType (config e) = ''Basic''"
  shows "getToken e (''Basic '' @ EncodeToString (u @ '':'' @ p)) = Inr (u @ p)"
proof -
  have sp: "CHR '' '' \<notin> set ''Basic''" by simp
  have ne: "combined \<noteq> unchanged" "combined \<noteq> decoded" "combined \<noteq> username" "combined \<noteq> password"
    by (simp_all add: combined_def unchanged_def decoded_def username_def password_def)
  have "getToken e (''Basic'' @ CHR '' '' # EncodeToString (u @ '':'' @ p)) = Inr (u @ p)"
    unfolding getToken_split [OF sp]
    using assms ne by (simp add: DecodeString_EncodeToString basic_def SplitN2_first)
  then show ?thesis by simp
qed

theorem combined_concatenates_witness:
  "CHR '':'' \<notin> set ''user_login'' \<and>
   getToken \<lparr>next_handler = (), config = CreateConfig\<rparr>
     (''Basic '' @ EncodeToString (''user_login'' @ '':'' @ ''user_password''))
     = Inr (''user_login'' @ ''user_password'') \<and>
   ''Basic '' @ EncodeToString (''user_login'' @ '':'' @ ''user_password'')
     = ''Basic dXNlcl9sb2dpbjp1c2VyX3Bhc3N3b3Jk''"
proof -
  have h: "CHR '':'' \<notin> set ''user_login''" by simp
  have "getToken \<lparr>next_handler = (), config = CreateConfig\<rparr>
     (''Basic '' @ EncodeToString (''user_login'' @ '':'' @ ''user_password''))
     = Inr (''user_login'' @ ''user_password'')"
    by (rule combined_concatenates [OF h]) (simp_all add: CreateConfig_def basic_def)
  moreover have "EncodeToString (''user_login'' @ '':'' @ ''user_password'')
     = ''dXNlcl9sb2dpbjp1c2VyX3Bhc3N3b3Jk''"
    by (simp add: base64_eval)
  ultimately show ?thesis using h by simp
qed

text \<open>
  C2: the handler calls the next handler exactly once, with the response writer it was
  given; and whenever the extraction fails, with whatever error, the request it
  passes on is the request it received, unchanged.
\<close>

theorem failure_passes_through:
  "(\<exists>req'. ServeHTTP e rw req = [Next_ServeHTTP (next_handler e) rw req']) \<and>
   (\<forall>err. getToken e (Get (Header req) HeaderName) = Inl err \<longrightarrow>
      ServeHTTP e rw req = [Next_ServeHTTP (next_handler e) rw req])"
  by (simp add: ServeHTTP_def Let_def)

theorem failure_passes_through_witness:
  "getToken \<lparr>next_handler = (), config = CreateConfig\<rparr>
     (Get (Header \<lparr>Header = [''Authorization'' \<mapsto> [''Bearer YTtkbmdhb3VpcmduYXdvZ2lu'']]\<rparr>) HeaderName)
     = Inl SchemeMismatch \<and>
   ServeHTTP \<lparr>next_handler = (), config = CreateConfig\<rparr> \<lparr>rw_Header = Map.empty\<rparr>
     \<lparr>Header = [''Authorization'' \<mapsto> [''Bearer YTtkbmdhb3VpcmduYXdvZ2lu'']]\<rparr>
     = [Next_ServeHTTP () \<lparr>rw_Header = Map.empty\<rparr>
          \<lparr>Header = [''Authorization'' \<mapsto> [''Bearer YTtkbmdhb3VpcmduYXdvZ2lu'']]\<rparr>]"
proof -
  let ?e = "\<lparr>next_handler = (), config = CreateConfig\<rparr>"
  let ?req = "\<lparr>Header = [''Authorization'' \<mapsto> [''Bearer YTtkbmdhb3VpcmduYXdvZ2lu'']]\<rparr>"
  have h: "getToken ?e (Get (Header ?req) HeaderName) = Inl SchemeMismatch"
    by (simp add: converter_eval CreateConfig_def SchemeMismatch_def)
  from failure_passes_through [of ?e "\<lparr>rw_Header = Map.empty\<rparr>" ?req] h
  show ?thesis by simp
qed


text \<open>
  C3: \<^verbatim>\<open>New\<close> returns a handler, holding the next handler and the configuration, if and
  only if the token source is one of \<^verbatim>\<open>username\<close>, \<^verbatim>\<open>password\<close>, \<^verbatim>\<open>combined\<close>,
  \<^verbatim>\<open>unchanged\<close>, \<^verbatim>\<open>decoded\<close>; for any other value it returns the error
  \<^verbatim>\<open>invalid token source\<close> and no handler. The five values are the constants of the
  code; the constant \<^verbatim>\<open>unchanged\<close> is the string \<^verbatim>\<open>"full"\<close>.
\<close>

theorem New_checks_token_source:
  "(tokenSource cfg \<in> {username, password, combined, unchanged, decoded} \<longrightarrow>
      New ctx nxt cfg name = Inr \<lparr>next_handler = nxt, config = cfg\<rparr>) \<and>
   (tokenSource cfg \<notin> {username, password, combined, unchanged, decoded} \<longrightarrow>
      New ctx nxt cfg name = Inl (errors_New ''invalid token source'')) \<and>
   ((\<exists>h. New ctx nxt cfg name = Inr h) \<longleftrightarrow>
      tokenSource cfg \<in> {username, password, combined, unchanged, decoded})"
  by (auto simp add: New_def validConfig_def)

theorem New_checks_token_source_witness:
  "New () () \<lparr>tokenSource = decoded, encodeToken = False, sourceType = [], targetType = []\<rparr> []
     = Inr \<lparr>next_handler = (),
            config = \<lparr>tokenSource = decoded, encodeToken = False, sourceType = [], targetType = []\<rparr>\<rparr> \<and>
   New () () \<lparr>tokenSource = ''not_a_source'', encodeToken = True, sourceType = [], targetType = []\<rparr> []
     = Inl (errors_New ''invalid token source'')"
proof -
  have "New () () \<lparr>tokenSource = decoded, encodeToken = False, sourceType = [], targetType = []\<rparr> []
     = Inr \<lparr>next_handler = (),
            config = \<lparr>tokenSource = decoded, encodeToken = False, sourceType = [], targetType = []\<rparr>\<rparr>"
    using New_checks_token_source
      [of "\<lparr>tokenSource = decoded, encodeToken = False, sourceType = [], targetType = []\<rparr>" "()" "()" "[]"]
    by simp
  moreover have "New () () \<lparr>tokenSource = ''not_a_source'', encodeToken = True, sourceType = [], targetType = []\<rparr> []
     = Inl (errors_New ''invalid token source'')"
    using New_checks_token_source
      [of "\<lparr>tokenSource = ''not_a_source'', encodeToken = True, sourceType = [], targetType = []\<rparr>" "()" "()" "[]"]
    by (simp add: username_def password_def combined_def unchanged_def decoded_def)
  ultimately show ?thesis by simp
qed


text \<open>
  C4: when the extraction succeeds with the token \<open>t\<close>, the handler sets the
  \<^verbatim>\<open>Authorization\<close> header of the request to the target type, a space, and \<open>t\<close>
  (or the standard base64 encoding of \<open>t\<close> when \<^verbatim>\<open>encodeToken\<close> is set), in place of
  every earlier value; the response writer is passed on as it came.
\<close>

theorem success_rewrites_request:
  assumes "getToken e (Get (Header req) HeaderName) = Inr t"
  shows "\<exists>req'. ServeHTTP e rw req = [Next_ServeHTTP (next_handler e) rw req'] \<and>
     req' = req\<lparr>Header := (Header req)(HeaderName \<mapsto>
           [targetType (config e) @ '' '' @
            (if encodeToken (config e) then EncodeToString t else t)])\<rparr> \<and>
     Get (Header req') HeaderName =
        targetType (config e) @ '' '' @ (if encodeToken (config e) then EncodeToString t else t)"
  using assms by (simp add: ServeHTTP_def Let_def Set_def Get_def)

theorem success_rewrites_request_witness:
  "getToken \<lparr>next_handler = (), config = CreateConfig\<lparr>encodeToken := True, targetType := digest\<rparr>\<rparr>
     (Get (Header \<lparr>Header = [''Authorization'' \<mapsto> [''Basic dXNlcjpwYXNz'']]\<rparr>) HeaderName)
     = Inr ''userpass'' \<and>
   ServeHTTP \<lparr>next_handler = (), config = CreateConfig\<lparr>encodeToken := True, targetType := digest\<rparr>\<rparr>
     \<lparr>rw_Header = Map.empty\<rparr> \<lparr>Header = [''Authorization'' \<mapsto> [''Basic dXNlcjpwYXNz'']]\<rparr>
     = [Next_ServeHTTP () \<lparr>rw_Header = Map.empty\<rparr>
          \<lparr>Header = [''Authorization'' \<mapsto> [''Digest dXNlcnBhc3M='']]\<rparr>]"
proof -
  let ?e = "\<lparr>next_handler = (), config = CreateConfig\<lparr>encodeToken := True, targetType := digest\<rparr>\<rparr>"
  let ?req = "\<lparr>Header = [''Authorization'' \<mapsto> [''Basic dXNlcjpwYXNz'']]\<rparr>"
  have h: "getToken ?e (Get (Header ?req) HeaderName) = Inr ''userpass''"
    by (simp add: converter_eval base64_eval CreateConfig_def)
  have enc: "EncodeToString ''userpass'' = ''dXNlcnBhc3M=''"
    by (simp add: base64_eval)
  from success_rewrites_request [OF h, of "\<lparr>rw_Header = Map.empty\<rparr>"] h enc
  show ?thesis by (simp add: CreateConfig_def HeaderName_def digest_def)
qed

text \<open>
  C5: the extractor's failures, in the order of its checks. A header without a space
  fails with \<^verbatim>\<open>MalformedHeader\<close>. Otherwise, with \<open>scheme\<close> the part before the first
  space: a scheme other than the source type fails with \<^verbatim>\<open>SchemeMismatch\<close>; else, for
  a token source other than \<^verbatim>\<open>unchanged\<close>, a payload the decoder rejects fails with
  \<^verbatim>\<open>DecodeError\<close>; else, for a token source other than \<^verbatim>\<open>decoded\<close> (so for
  \<^verbatim>\<open>username\<close>, \<^verbatim>\<open>password\<close> and \<^verbatim>\<open>combined\<close>), a source type other than
  \<^verbatim>\<open>"Basic"\<close> fails with \<^verbatim>\<open>UnsupportedSourceForSplit\<close>; else a decoded string
  without a colon fails with \<^verbatim>\<open>MalformedCredential\<close>.
\<close>

theorem check_order:
  "(CHR '' '' \<notin> set header \<longrightarrow> getToken e header = Inl MalformedHeader) \<and>
   (CHR '' '' \<notin> set scheme \<longrightarrow>
      (scheme \<noteq> sourceType (config e) \<longrightarrow>
         getToken e (scheme @ '' '' @ payload) = Inl SchemeMismatch) \<and>
      (scheme = sourceType (config e) \<and> tokenSource (config e) \<noteq> unchanged \<longrightarrow>
         (DecodeString payload = None \<longrightarrow>
            getToken e (scheme @ '' '' @ payload) = Inl DecodeError) \<and>
         (DecodeString payload = Some d \<and> tokenSource (config e) \<noteq> decoded \<longrightarrow>
            (sourceType (config e) \<noteq> basic \<longrightarrow>
               getToken e (scheme @ '' '' @ payload) = Inl UnsupportedSourceForSplit) \<and>
            (sourceType (config e) = basic \<and> CHR '':'' \<notin> set d \<longrightarrow>
               getToken e (scheme @ '' '' @ payload) = Inl MalformedCredential))))"
proof -
  have "CHR '' '' \<notin> set header \<Longrightarrow> getToken e header = Inl MalformedHeader"
    by (simp add: getToken_def SplitN2_no_sep MalformedHeader_def)
  moreover have "CHR '' '' \<notin> set scheme \<Longrightarrow> 
      (scheme \<noteq> sourceType (config e) \<longrightarrow>
         getToken e (scheme @ '' '' @ payload) = Inl SchemeMismatch) \<and>
      (scheme = sourceType (config e) \<and> tokenSource (config e) \<noteq> unchanged \<longrightarrow>
         (DecodeString payload = None \<longrightarrow>
            getToken e (scheme @ '' '' @ payload) = Inl DecodeError) \<and>
         (DecodeString payload = Some d \<and> tokenSource (config e) \<noteq> decoded \<longrightarrow>
            (sourceType (config e) \<noteq> basic \<longrightarrow>
               getToken e (scheme @ '' '' @ payload) = Inl UnsupportedSourceForSplit) \<and>
            (sourceType (config e) = basic \<and> CHR '':'' \<notin> set d \<longrightarrow>
               getToken e (scheme @ '' '' @ payload) = Inl MalformedCredential)))"
    by (auto simp add: getToken_split)
  ultimately show ?thesis by blast
qed

theorem check_order_witness:
  "getToken \<lparr>next_handler = (), config = CreateConfig\<lparr>tokenSource := password\<rparr>\<rparr>
     ''BearerYTtkbmdhb3VpcmduYXdvZ2lu'' = Inl MalformedHeader \<and>
   getToken \<lparr>next_handler = (), config = CreateConfig\<lparr>tokenSource := password\<rparr>\<rparr>
     (''Bearer'' @ '' '' @ ''YTtkbmdhb3VpcmduYXdvZ2lu'') = Inl SchemeMismatch \<and>
   DecodeString ''dXNlcl9sb2dpbjp1c2VyX3Bhc3N3b3Jk-'' = None \<and>
   getToken \<lparr>next_handler = (), config = CreateConfig\<lparr>tokenSource := password\<rparr>\<rparr>
     (''Basic'' @ '' '' @ ''dXNlcl9sb2dpbjp1c2VyX3Bhc3N3b3Jk-'') = Inl DecodeError \<and>
   DecodeString ''dXNlcjpwYXNz'' = Some ''user:pass'' \<and>
   getToken \<lparr>next_handler = (),
             config = CreateConfig\<lparr>tokenSource := password, sourceType := bearer\<rparr>\<rparr>
     (''Bearer'' @ '' '' @ ''dXNlcjpwYXNz'') = Inl UnsupportedSourceForSplit \<and>
   DecodeString ''dXNlcnBhc3M='' = Some ''userpass'' \<and>
   getToken \<lparr>next_handler = (), config = CreateConfig\<lparr>tokenSource := password\<rparr>\<rparr>
     (''Basic'' @ '' '' @ ''dXNlcnBhc3M='') = Inl MalformedCredential"
proof -
  let ?e = "\<lparr>next_handler = (), config = CreateConfig\<lparr>tokenSource := password\<rparr>\<rparr>"
  let ?b = "\<lparr>next_handler = (),
             config = CreateConfig\<lparr>tokenSource := password, sourceType := bearer\<rparr>\<rparr>"
  note names = CreateConfig_def password_def unchanged_def decoded_def basic_def bearer_def
  have d1: "DecodeString ''dXNlcl9sb2dpbjp1c2VyX3Bhc3N3b3Jk-'' = None"
    by (simp add: base64_eval)
  have d2: "DecodeString ''dXNlcjpwYXNz'' = Some ''user:pass''"
    by (simp add: base64_eval)
  have d3: "DecodeString ''dXNlcnBhc3M='' = Some ''userpass''"
    by (simp add: base64_eval)
  have "getToken ?e ''BearerYTtkbmdhb3VpcmduYXdvZ2lu'' = Inl MalformedHeader"
    using check_order [of "''BearerYTtkbmdhb3VpcmduYXdvZ2lu''" ?e] by simp
  moreover have "getToken ?e (''Bearer'' @ '' '' @ ''YTtkbmdhb3VpcmduYXdvZ2lu'') = Inl SchemeMismatch"
    using check_order [of _ ?e "''Bearer''" "''YTtkbmdhb3VpcmduYXdvZ2lu''"]
    by (simp add: names)
  moreover have "getToken ?e (''Basic'' @ '' '' @ ''dXNlcl9sb2dpbjp1c2VyX3Bhc3N3b3Jk-'') = Inl DecodeError"
    using check_order [of _ ?e "''Basic''" "''dXNlcl9sb2dpbjp1c2VyX3Bhc3N3b3Jk-''"] d1
    by (simp add: names)
  moreover have "getToken ?b (''Bearer'' @ '' '' @ ''dXNlcjpwYXNz'') = Inl UnsupportedSourceForSplit"
    using check_order [of _ ?b "''Bearer''" "''dXNlcjpwYXNz''" "''user:pass''"] d2
    by (simp add: names)
  moreover have "getToken ?e (''Basic'' @ '' '' @ ''dXNlcnBhc3M='') = Inl MalformedCredential"
    using check_order [of _ ?e "''Basic''" "''dXNlcnBhc3M=''" "''userpass''"] d3
    by (simp add: names)
  ultimately show ?thesis using d1 d2 d3 by simp
qed

text \<open>
  C6, as stated, fails for a source type that contains a space: the header is cut at
  its first space, so the scheme read from it is only the first word of the source
  type, and the extraction fails with \<^verbatim>\<open>SchemeMismatch\<close>.
\<close>

theorem unchanged_space_counterexample:
  "getToken \<lparr>next_handler = (),
      config = \<lparr>tokenSource = unchanged, encodeToken = False,
                sourceType = ''Token v2'', targetType = ''Bearer''\<rparr>\<rparr>
     (''Token v2'' @ '' '' @ ''abc'') = Inl SchemeMismatch"
  by (simp add: converter_eval SchemeMismatch_def)

text \<open>
  C6, amended: when the source type contains no space and the token source is
  \<^verbatim>\<open>unchanged\<close>, the extraction from the header made of the source type, a space and
  any payload \<open>p\<close> (valid base64 or not) succeeds and returns \<open>p\<close> as it is.
\<close>

theorem unchanged_verbatim:
  assumes "CHR '' '' \<notin> set (sourceType (config e))"
    and "tokenSource (config e) = unchanged"
  shows "getToken e (sourceType (config e) @ '' '' @ p) = Inr p"
  using assms by (simp add: getToken_split)

theorem unchanged_verbatim_witness:
  "CHR '' '' \<notin> set ''Basic'' \<and> DecodeString ''not base64!'' = None \<and>
   getToken \<lparr>next_handler = (), config = CreateConfig\<lparr>tokenSource := unchanged\<rparr>\<rparr>
     (''Basic'' @ '' '' @ ''not base64!'') = Inr ''not base64!''"
proof -
  let ?e = "\<lparr>next_handler = (), config = CreateConfig\<lparr>tokenSource := unchanged\<rparr>\<rparr>"
  have s: "CHR '' '' \<notin> set (sourceType (config ?e))"
    by (simp add: CreateConfig_def basic_def)
  have u: "tokenSource (config ?e) = unchanged"
    by simp
  have d: "DecodeString ''not base64!'' = None"
    by (simp add: base64_eval)
  from unchanged_verbatim [OF s u, of "''not base64!''"] d
  show ?thesis by (simp add: CreateConfig_def basic_def)
qed

text \<open>
  C7, as stated, fails for a source type that contains a space, for the same reason.
\<close>

theorem decoded_space_counterexample:
  "DecodeString ''YWJj'' = Some ''abc'' \<and>
   getToken \<lparr>next_handler = (),
      config = \<lparr>tokenSource = decoded, encodeToken = False,
                sourceType = ''Custom Scheme'', targetType = ''Bearer''\<rparr>\<rparr>
     (''Custom Scheme'' @ '' '' @ ''YWJj'') = Inl SchemeMismatch"
  by (simp add: converter_eval base64_eval SchemeMismatch_def)

text \<open>
  C7, amended: when the source type contains no space (it need not be
  \<^verbatim>\<open>"Basic"\<close>), the token source is \<^verbatim>\<open>decoded\<close> and the decoder accepts the payload
  \<open>p\<close>, the extraction from the header made of the source type, a space and \<open>p\<close>
  succeeds and returns the decoded bytes, with or without a colon in them.
\<close>

theorem decoded_returns_bytes:
  assumes "CHR '' '' \<notin> set (sourceType (config e))"
    and "tokenSource (config e) = decoded"
    and "DecodeString p = Some d"
  shows "getToken e (sourceType (config e) @ '' '' @ p) = Inr d"
proof -
  have "decoded \<noteq> unchanged"
    by (simp add: decoded_def unchanged_def)
  with assms show ?thesis by (simp add: getToken_split)
qed

theorem decoded_returns_bytes_witness:
  "CHR '' '' \<notin> set ''Bearer'' \<and> ''Bearer'' \<noteq> basic \<and>
   DecodeString ''YTtkbmdhb3VpcmduYXdvZ2lu'' = Some ''a;dngaouirgnawogin'' \<and>
   CHR '':'' \<notin> set ''a;dngaouirgnawogin'' \<and>
   getToken \<lparr>next_handler = (),
       config = CreateConfig\<lparr>tokenSource := decoded, sourceType := ''Bearer''\<rparr>\<rparr>
     (''Bearer'' @ '' '' @ ''YTtkbmdhb3VpcmduYXdvZ2lu'') = Inr ''a;dngaouirgnawogin''"
proof -
  let ?e = "\<lparr>next_handler = (),
       config = CreateConfig\<lparr>tokenSource := decoded, sourceType := ''Bearer''\<rparr>\<rparr>"
  have s: "CHR '' '' \<notin> set (sourceType (config ?e))"
    by simp
  have u: "tokenSource (config ?e) = decoded"
    by simp
  have d: "DecodeString ''YTtkbmdhb3VpcmduYXdvZ2lu'' = Some ''a;dngaouirgnawogin''"
    by (simp add: base64_eval)
  from decoded_returns_bytes [OF s u d] d
  show ?thesis by (simp add: basic_def)
qed

text \<open>
  C8: when the extraction succeeds with the token \<open>x\<close> and \<^verbatim>\<open>encodeToken\<close> is set, the
  value put into the header after the target type is the standard base64 encoding of
  \<open>x\<close>, and decoding that value gives back \<open>x\<close>.
\<close>

theorem encoded_token_round_trip:
  assumes "getToken e (Get (Header req) HeaderName) = Inr x"
    and "encodeToken (config e)"
  shows "\<exists>req'. ServeHTTP e rw req = [Next_ServeHTTP (next_handler e) rw req'] \<and>
     Get (Header req') HeaderName = targetType (config e) @ '' '' @ EncodeToString x \<and>
     DecodeString (EncodeToString x) = Some x"
  using assms
  by (simp add: ServeHTTP_def Let_def Set_def Get_def DecodeString_EncodeToString)

theorem encoded_token_round_trip_witness:
  "getToken \<lparr>next_handler = (), config = CreateConfig\<lparr>encodeToken := True\<rparr>\<rparr>
     (Get (Header \<lparr>Header = [''Authorization'' \<mapsto> [''Basic dXNlcl9sb2dpbjp1c2VyX3Bhc3N3b3Jk'']]\<rparr>)
        HeaderName) = Inr ''user_loginuser_password'' \<and>
   EncodeToString ''user_loginuser_password'' = ''dXNlcl9sb2dpbnVzZXJfcGFzc3dvcmQ='' \<and>
   DecodeString ''dXNlcl9sb2dpbnVzZXJfcGFzc3dvcmQ='' = Some ''user_loginuser_password'' \<and>
   (\<exists>req'. ServeHTTP \<lparr>next_handler = (), config = CreateConfig\<lparr>encodeToken := True\<rparr>\<rparr>
       \<lparr>rw_Header = Map.empty\<rparr>
       \<lparr>Header = [''Authorization'' \<mapsto> [''Basic dXNlcl9sb2dpbjp1c2VyX3Bhc3N3b3Jk'']]\<rparr>
       = [Next_ServeHTTP () \<lparr>rw_Header = Map.empty\<rparr> req'] \<and>
      Get (Header req') HeaderName = ''Bearer dXNlcl9sb2dpbnVzZXJfcGFzc3dvcmQ='')"
proof -
  let ?e = "\<lparr>next_handler = (), config = CreateConfig\<lparr>encodeToken := True\<rparr>\<rparr>"
  let ?req = "\<lparr>Header = [''Authorization'' \<mapsto> [''Basic dXNlcl9sb2dpbjp1c2VyX3Bhc3N3b3Jk'']]\<rparr>"
  have h: "getToken ?e (Get (Header ?req) HeaderName) = Inr ''user_loginuser_password''"
    by (simp add: converter_eval base64_eval CreateConfig_def)
  have c: "encodeToken (config ?e)"
    by simp
  have enc: "EncodeToString ''user_loginuser_password'' = ''dXNlcl9sb2dpbnVzZXJfcGFzc3dvcmQ=''"
    by (simp add: base64_eval)
  from encoded_token_round_trip [OF h c, of "\<lparr>rw_Header = Map.empty\<rparr>"]
  obtain req' where
    "ServeHTTP ?e \<lparr>rw_Header = Map.empty\<rparr> ?req = [Next_ServeHTTP () \<lparr>rw_Header = Map.empty\<rparr> req']"
    "Get (Header req') HeaderName = ''Bearer dXNlcl9sb2dpbnVzZXJfcGFzc3dvcmQ=''"
    "DecodeString ''dXNlcl9sb2dpbnVzZXJfcGFzc3dvcmQ='' = Some ''user_loginuser_password''"
    unfolding enc by (auto simp add: CreateConfig_def bearer_def)
  with h enc show ?thesis by blast
qed

text \<open>
  C9, as stated, fails for the token sources \<^verbatim>\<open>username\<close>, \<^verbatim>\<open>password\<close> and
  \<^verbatim>\<open>combined\<close> when the source type is not \<^verbatim>\<open>"Basic"\<close>: the check of the source
  type comes before the split at the colon, and the failure is
  \<^verbatim>\<open>UnsupportedSourceForSplit\<close>, not the missing-colon error.
\<close>

theorem empty_payload_counterexample:
  "getToken \<lparr>next_handler = (),
      config = \<lparr>tokenSource = username, encodeToken = False,
                sourceType = ''Bearer'', targetType = ''Bearer''\<rparr>\<rparr>
     (''Bearer'' @ '' '' @ []) = Inl UnsupportedSourceForSplit \<and>
   UnsupportedSourceForSplit \<noteq> MalformedCredential"
  by (simp add: converter_eval base64_eval UnsupportedSourceForSplit_def MalformedCredential_def)

text \<open>
  C9, amended: the header made of the source type and a single space never fails with
  \<^verbatim>\<open>MalformedHeader\<close>. When the source type contains no space: with the token source
  \<^verbatim>\<open>decoded\<close> the extraction succeeds with the empty token, and the handler rewrites
  the header to the target type and a space; with \<^verbatim>\<open>username\<close>, \<^verbatim>\<open>password\<close> or
  \<^verbatim>\<open>combined\<close> it fails with the missing-colon error when the source type is
  \<^verbatim>\<open>"Basic"\<close>, and with \<^verbatim>\<open>UnsupportedSourceForSplit\<close> otherwise.
\<close>

theorem empty_payload:
  "getToken e (sourceType (config e) @ '' '') \<noteq> Inl MalformedHeader \<and>
   (CHR '' '' \<notin> set (sourceType (config e)) \<longrightarrow>
      (tokenSource (config e) = decoded \<longrightarrow>
         getToken e (sourceType (config e) @ '' '') = Inr [] \<and>
         (Get (Header req) HeaderName = sourceType (config e) @ '' '' \<longrightarrow>
            ServeHTTP e rw req =
              [Next_ServeHTTP (next_handler e) rw
                 (req\<lparr>Header := (Header req)(HeaderName \<mapsto> [targetType (config e) @ '' ''])\<rparr>)])) \<and>
      (tokenSource (config e) \<in> {username, password, combined} \<longrightarrow>
         (sourceType (config e) = basic \<longrightarrow>
            getToken e (sourceType (config e) @ '' '') = Inl MalformedCredential) \<and>
         (sourceType (config e) \<noteq> basic \<longrightarrow>
            getToken e (sourceType (config e) @ '' '') = Inl UnsupportedSourceForSplit)))"
proof -
  have ne: "decoded \<noteq> unchanged" "username \<noteq> unchanged" "password \<noteq> unchanged"
    "combined \<noteq> unchanged" "username \<noteq> decoded" "password \<noteq> decoded" "combined \<noteq> decoded"
    by (simp_all add: decoded_def unchanged_def username_def password_def combined_def)
  have a: "getToken e (sourceType (config e) @ '' '') \<noteq> Inl MalformedHeader"
    by (simp add: getToken_def length_SplitN2 MalformedHeader_def Let_def split: option.split)
  have b: "getToken e (sourceType (config e) @ '' '') = Inr []"
    if "CHR '' '' \<notin> set (sourceType (config e))" "tokenSource (config e) = decoded"
    using that ne by (simp add: getToken_split DecodeString_Nil)
  have c: "ServeHTTP e rw req =
              [Next_ServeHTTP (next_handler e) rw
                 (req\<lparr>Header := (Header req)(HeaderName \<mapsto> [targetType (config e) @ '' ''])\<rparr>)]"
    if "CHR '' '' \<notin> set (sourceType (config e))" "tokenSource (config e) = decoded"
      "Get (Header req) HeaderName = sourceType (config e) @ '' ''"
    using that b by (simp add: ServeHTTP_def Let_def Set_def EncodeToString_Nil)
  have d: "getToken e (sourceType (config e) @ '' '') =
      (if sourceType (config e) = basic then Inl MalformedCredential
       else Inl UnsupportedSourceForSplit)"
    if "CHR '' '' \<notin> set (sourceType (config e))"
      "tokenSource (config e) \<in> {username, password, combined}"
    using that ne by (auto simp add: getToken_split DecodeString_Nil)
  from a b c d show ?thesis by auto
qed


theorem empty_payload_witness:
  "getToken \<lparr>next_handler = (), config = CreateConfig\<lparr>tokenSource := decoded\<rparr>\<rparr>
     (''Basic'' @ '' '') = Inr [] \<and>
   ServeHTTP \<lparr>next_handler = (), config = CreateConfig\<lparr>tokenSource := decoded\<rparr>\<rparr>
     \<lparr>rw_Header = Map.empty\<rparr> \<lparr>Header = [''Authorization'' \<mapsto> [''Basic '']]\<rparr>
     = [Next_ServeHTTP () \<lparr>rw_Header = Map.empty\<rparr>
          \<lparr>Header = [''Authorization'' \<mapsto> [''Bearer '']]\<rparr>] \<and>
   getToken \<lparr>next_handler = (), config = CreateConfig\<lparr>tokenSource := username\<rparr>\<rparr>
     (''Basic'' @ '' '') = Inl MalformedCredential \<and>
   getToken \<lparr>next_handler = (),
       config = CreateConfig\<lparr>tokenSource := password, sourceType := ''Digest''\<rparr>\<rparr>
     (''Digest'' @ '' '') = Inl UnsupportedSourceForSplit"
proof -
  let ?d = "\<lparr>next_handler = (), config = CreateConfig\<lparr>tokenSource := decoded\<rparr>\<rparr>"
  let ?u = "\<lparr>next_handler = (), config = CreateConfig\<lparr>tokenSource := username\<rparr>\<rparr>"
  let ?p = "\<lparr>next_handler = (),
       config = CreateConfig\<lparr>tokenSource := password, sourceType := ''Digest''\<rparr>\<rparr>"
  let ?req = "\<lparr>Header = [''Authorization'' \<mapsto> [''Basic '']]\<rparr>"
  let ?rw = "\<lparr>rw_Header = Map.empty\<rparr>"
  note names = CreateConfig_def basic_def bearer_def HeaderName_def Get_def
    username_def password_def combined_def
  from empty_payload [of ?d ?req ?rw]
  have "getToken ?d (''Basic'' @ '' '') = Inr [] \<and>
    ServeHTTP ?d ?rw ?req = [Next_ServeHTTP () ?rw \<lparr>Header = [''Authorization'' \<mapsto> [''Bearer '']]\<rparr>]"
    by (simp add: names)
  moreover from empty_payload [of ?u ?req ?rw]
  have "getToken ?u (''Basic'' @ '' '') = Inl MalformedCredential"
    by (simp add: names)
  moreover from empty_payload [of ?p ?req ?rw]
  have "getToken ?p (''Digest'' @ '' '') = Inl UnsupportedSourceForSplit"
    by (simp add: names)
  ultimately show ?thesis by simp
qed

text \<open>
  C10, as stated, fails for a source type that contains a space: the extraction fails
  and the handler passes the request on unchanged.
\<close>

theorem double_encoding_counterexample:
  "ServeHTTP
     \<lparr>next_handler = (),
      config = \<lparr>tokenSource = unchanged, encodeToken = True,
                sourceType = ''X Y'', targetType = ''Bearer''\<rparr>\<rparr>
     \<lparr>rw_Header = Map.empty\<rparr>
     \<lparr>Header = [''Authorization'' \<mapsto> [''X Y'' @ '' '' @ ''cGF5'']]\<rparr>
   = [Next_ServeHTTP () \<lparr>rw_Header = Map.empty\<rparr>
        \<lparr>Header = [''Authorization'' \<mapsto> [''X Y cGF5'']]\<rparr>]"
  by (simp add: ServeHTTP_def converter_eval)

text \<open>
  C10, amended: when the source type contains no space, the token source is
  \<^verbatim>\<open>unchanged\<close> and \<^verbatim>\<open>encodeToken\<close> is set, a request whose header is the source
  type, a space and \<open>p\<close> is passed on with the header set to the target type, a space
  and the base64 encoding of \<open>p\<close>: the payload is encoded once more, decoding the
  emitted token gives \<open>p\<close> back, and for a non-empty \<open>p\<close> the emitted token is not
  \<open>p\<close>.
\<close>

theorem unchanged_double_encodes:
  assumes "CHR '' '' \<notin> set (sourceType (config e))"
    and "tokenSource (config e) = unchanged"
    and "encodeToken (config e)"
    and "Get (Header req) HeaderName = sourceType (config e) @ '' '' @ p"
  shows "ServeHTTP e rw req =
       [Next_ServeHTTP (next_handler e) rw
          (req\<lparr>Header := (Header req)(HeaderName \<mapsto>
             [targetType (config e) @ '' '' @ EncodeToString p])\<rparr>)] \<and>
     DecodeString (EncodeToString p) = Some p \<and>
     (p \<noteq> [] \<longrightarrow> EncodeToString p \<noteq> p)"
  using assms
  by (simp add: ServeHTTP_def Let_def Set_def getToken_split DecodeString_EncodeToString
      EncodeToString_neq)

theorem unchanged_double_encodes_witness:
  "ServeHTTP \<lparr>next_handler = (),
       config = CreateConfig\<lparr>tokenSource := unchanged, encodeToken := True\<rparr>\<rparr>
     \<lparr>rw_Header = Map.empty\<rparr>
     \<lparr>Header = [''Authorization'' \<mapsto> [''Basic'' @ '' '' @ ''YTtkbmdhb3VpcmduYXdvZ2lu'']]\<rparr>
   = [Next_ServeHTTP () \<lparr>rw_Header = Map.empty\<rparr>
        \<lparr>Header = [''Authorization'' \<mapsto> [''Bearer WVR0a2JtZGhiM1ZwY21kdVlYZHZaMmx1'']]\<rparr>] \<and>
   DecodeString ''WVR0a2JtZGhiM1ZwY21kdVlYZHZaMmx1'' = Some ''YTtkbmdhb3VpcmduYXdvZ2lu''"
proof -
  let ?e = "\<lparr>next_handler = (),
       config = CreateConfig\<lparr>tokenSource := unchanged, encodeToken := True\<rparr>\<rparr>"
  let ?req = "\<lparr>Header = [''Authorization'' \<mapsto> [''Basic'' @ '' '' @ ''YTtkbmdhb3VpcmduYXdvZ2lu'']]\<rparr>"
  have s: "CHR '' '' \<notin> set (sourceType (config ?e))"
    by (simp add: CreateConfig_def basic_def)
  have u: "tokenSource (config ?e) = unchanged" and c: "encodeToken (config ?e)"
    by simp_all
  have g: "Get (Header ?req) HeaderName = sourceType (config ?e) @ '' '' @ ''YTtkbmdhb3VpcmduYXdvZ2lu''"
    by (simp add: Get_def HeaderName_def CreateConfig_def basic_def)
  have enc: "EncodeToString ''YTtkbmdhb3VpcmduYXdvZ2lu'' = ''WVR0a2JtZGhiM1ZwY21kdVlYZHZaMmx1''"
    by (simp add: base64_eval)
  from unchanged_double_encodes [OF s u c g, of "\<lparr>rw_Header = Map.empty\<rparr>"]
  show ?thesis unfolding enc by (simp add: CreateConfig_def bearer_def HeaderName_def)
qed

end
